theory Spec2Isabelle
  imports Main "HOL-Library.Word" "HOL-Library.Char_ord" "HOL-Library.List_Lexorder"
begin

unbundle bit_operations_syntax

section \<open>Python values that the ledger stores and serialises\<close>

text \<open>
  \<^verbatim>\<open>blockchain.py\<close> never computes with a float: the timestamp of a block and the
  floats of a payload are only written with \<^verbatim>\<open>json.dumps\<close> and read back with
  \<^verbatim>\<open>json.load\<close>. A float is therefore carried as the text that
  \<^verbatim>\<open>json\<close> emits for it (\<^verbatim>\<open>float.__repr__\<close>), which reads back to the same float.
  A string is a list of code points below 256.
\<close>

type_synonym pyfloat = string

datatype json =
    JNull
  | JBool bool
  | JInt int
  | JFloat pyfloat
  | JStr string
  | JList "json list"
  | JObj "(string \<times> json) list"

type_synonym pydict = "(string \<times> json) list"

subsection \<open>\<^verbatim>\<open>json.dumps(..., sort_keys=True)\<close>\<close>

definition digit_char :: "nat \<Rightarrow> char" where
  "digit_char n = char_of (48 + n)"

fun digits10 :: "nat \<Rightarrow> string" where
  "digits10 n = (if n < 10 then [digit_char n] else digits10 (n div 10) @ [digit_char (n mod 10)])"

declare digits10.simps [simp del]

definition str_int :: "int \<Rightarrow> string" where
  "str_int i = (if i < 0 then CHR ''-'' # digits10 (nat (- i)) else digits10 (nat i))"

definition hexdigit :: "nat \<Rightarrow> char" where
  "hexdigit n = ''0123456789abcdef'' ! n"

text \<open>
  \<^verbatim>\<open>ensure_ascii\<close> is on by default: the quote and the backslash get a backslash,
  the five short escapes are used, and every other code point outside
  \<^verbatim>\<open>' '..'~'\<close> becomes \<^verbatim>\<open>\u00XX\<close>.
\<close>

definition escape_char :: "char \<Rightarrow> string" where
  "escape_char c =
     (let n = (of_char c :: nat) in
      if c = CHR 0x22 then [CHR 0x5C, CHR 0x22]
      else if c = CHR 0x5C then [CHR 0x5C, CHR 0x5C]
      else if c = CHR 0x08 then [CHR 0x5C, CHR ''b'']
      else if c = CHR 0x0C then [CHR 0x5C, CHR ''f'']
      else if c = CHR 0x0A then [CHR 0x5C, CHR ''n'']
      else if c = CHR 0x0D then [CHR 0x5C, CHR ''r'']
      else if c = CHR 0x09 then [CHR 0x5C, CHR ''t'']
      else if n < 32 \<or> 126 < n
        then [CHR 0x5C, CHR ''u'', CHR ''0'', CHR ''0'', hexdigit (n div 16), hexdigit (n mod 16)]
      else [c])"

definition encode_basestring_ascii :: "string \<Rightarrow> string" where
  "encode_basestring_ascii s = CHR 0x22 # concat (map escape_char s) @ [CHR 0x22]"

fun join :: "string \<Rightarrow> string list \<Rightarrow> string" where
  "join sep [] = []"
| "join sep [x] = x"
| "join sep (x # y # ys) = x @ sep @ join sep (y # ys)"

lemma size_snd_member:
  "kv \<in> set kvs \<Longrightarrow> size (snd kv) < Suc (size_list (size_prod (\<lambda>_. 0) size) kvs)"
proof -
  assume "kv \<in> set kvs"
  then have "size_prod (\<lambda>_. 0) size kv \<le> size_list (size_prod (\<lambda>_. 0) size) kvs"
    by (rule size_list_estimation') simp
  moreover have "size (snd kv) \<le> size_prod (\<lambda>_. 0) size kv"
    by (cases kv) simp
  ultimately show ?thesis by simp
qed

function dumps :: "json \<Rightarrow> string" where
  "dumps JNull = ''null''"
| "dumps (JBool b) = (if b then ''true'' else ''false'')"
| "dumps (JInt i) = str_int i"
| "dumps (JFloat r) = r"
| "dumps (JStr s) = encode_basestring_ascii s"
| "dumps (JList xs) = ''['' @ join '', '' (map dumps xs) @ '']''"
| "dumps (JObj kvs) =
     ''{'' @ join '', '' (map (\<lambda>kv. encode_basestring_ascii (fst kv) @ '': '' @ dumps (snd kv))
                              (sort_key fst kvs)) @ ''}''"
  by pat_completeness auto
termination
  by (relation "measure size") (auto simp: less_Suc_eq_le size_list_estimation' dest: size_snd_member)

section \<open>\<^verbatim>\<open>hashlib.sha256\<close>\<close>

text \<open>
  The digest function of the standard library, written out after FIPS 180-4: the
  message is padded to whole 64-byte blocks, each block updates eight 32-bit words in
  64 rounds, and \<^verbatim>\<open>hexdigest\<close> prints the eight words as 64 lower-case hex digits.
\<close>

type_synonym u32 = "32 word"

type_synonym sha_state = "u32 \<times> u32 \<times> u32 \<times> u32 \<times> u32 \<times> u32 \<times> u32 \<times> u32"

definition rotr :: "nat \<Rightarrow> u32 \<Rightarrow> u32" where
  "rotr n x = drop_bit n x OR push_bit (32 - n) x"

definition Ch :: "u32 \<Rightarrow> u32 \<Rightarrow> u32 \<Rightarrow> u32" where
  "Ch x y z = (x AND y) XOR (NOT x AND z)"

definition Maj :: "u32 \<Rightarrow> u32 \<Rightarrow> u32 \<Rightarrow> u32" where
  "Maj x y z = (x AND y) XOR (x AND z) XOR (y AND z)"

definition bsig0 :: "u32 \<Rightarrow> u32" where
  "bsig0 x = rotr 2 x XOR rotr 13 x XOR rotr 22 x"

definition bsig1 :: "u32 \<Rightarrow> u32" where
  "bsig1 x = rotr 6 x XOR rotr 11 x XOR rotr 25 x"

definition ssig0 :: "u32 \<Rightarrow> u32" where
  "ssig0 x = rotr 7 x XOR rotr 18 x XOR drop_bit 3 x"

definition ssig1 :: "u32 \<Rightarrow> u32" where
  "ssig1 x = rotr 17 x XOR rotr 19 x XOR drop_bit 10 x"

definition sha_K :: "u32 list" where
  "sha_K = concat [
   [0x428a2f98, 0x71374491, 0xb5c0fbcf, 0xe9b5dba5, 0x3956c25b, 0x59f111f1, 0x923f82a4, 0xab1c5ed5],
   [0xd807aa98, 0x12835b01, 0x243185be, 0x550c7dc3, 0x72be5d74, 0x80deb1fe, 0x9bdc06a7, 0xc19bf174],
   [0xe49b69c1, 0xefbe4786, 0x0fc19dc6, 0x240ca1cc, 0x2de92c6f, 0x4a7484aa, 0x5cb0a9dc, 0x76f988da],
   [0x983e5152, 0xa831c66d, 0xb00327c8, 0xbf597fc7, 0xc6e00bf3, 0xd5a79147, 0x06ca6351, 0x14292967],
   [0x27b70a85, 0x2e1b2138, 0x4d2c6dfc, 0x53380d13, 0x650a7354, 0x766a0abb, 0x81c2c92e, 0x92722c85],
   [0xa2bfe8a1, 0xa81a664b, 0xc24b8b70, 0xc76c51a3, 0xd192e819, 0xd6990624, 0xf40e3585, 0x106aa070],
   [0x19a4c116, 0x1e376c08, 0x2748774c, 0x34b0bcb5, 0x391c0cb3, 0x4ed8aa4a, 0x5b9cca4f, 0x682e6ff3],
   [0x748f82ee, 0x78a5636f, 0x84c87814, 0x8cc70208, 0x90befffa, 0xa4506ceb, 0xbef9a3f7, 0xc67178f2]]"

definition sha_H0 :: sha_state where
  "sha_H0 = (0x6a09e667, 0xbb67ae85, 0x3c6ef372, 0xa54ff53a,
             0x510e527f, 0x9b05688c, 0x1f83d9ab, 0x5be0cd19)"

text \<open>The message schedule; \<open>ws\<close> holds the sixteen most recent words, newest first.\<close>

fun schedule :: "nat \<Rightarrow> u32 list \<Rightarrow> u32 list" where
  "schedule 0 ws = []"
| "schedule (Suc n) ws =
     (let w = ssig1 (ws ! 1) + ws ! 6 + ssig0 (ws ! 14) + ws ! 15
      in w # schedule n (w # butlast ws))"

fun rounds :: "u32 list \<Rightarrow> u32 list \<Rightarrow> sha_state \<Rightarrow> sha_state" where
  "rounds (k # ks) (w # ws) (a, b, c, d, e, f, g, h) =
     (let t1 = h + bsig1 e + Ch e f g + k + w;
          t2 = bsig0 a + Maj a b c
      in rounds ks ws (t1 + t2, a, b, c, d + t1, e, f, g))"
| "rounds [] ws st = st"
| "rounds ks [] st = st"

fun be32 :: "8 word list \<Rightarrow> u32 list" where
  "be32 (a # b # c # d # r) =
     (push_bit 24 (ucast a) OR push_bit 16 (ucast b) OR push_bit 8 (ucast c) OR ucast d) # be32 r"
| "be32 r = []"

definition compress :: "sha_state \<Rightarrow> 8 word list \<Rightarrow> sha_state" where
  "compress st blk =
     (let w16 = be32 blk;
          ws = w16 @ schedule 48 (rev w16);
          (a, b, c, d, e, f, g, h) = st;
          (a', b', c', d', e', f', g', h') = rounds sha_K ws st
      in (a + a', b + b', c + c', d + d', e + e', f + f', g + g', h + h'))"

fun sha_blocks :: "nat \<Rightarrow> sha_state \<Rightarrow> 8 word list \<Rightarrow> sha_state" where
  "sha_blocks 0 st bs = st"
| "sha_blocks (Suc n) st bs = sha_blocks n (compress st (take 64 bs)) (drop 64 bs)"

definition be64 :: "nat \<Rightarrow> 8 word list" where
  "be64 n = map (\<lambda>i. ucast (drop_bit (8 * (7 - i)) (of_nat n :: 64 word))) [0..<8]"

definition sha_pad :: "8 word list \<Rightarrow> 8 word list" where
  "sha_pad m =
     (let l = length m; z = (119 - l mod 64) mod 64
      in m @ [0x80] @ replicate z 0 @ be64 (8 * l))"

definition hex32 :: "u32 \<Rightarrow> string" where
  "hex32 w = map (\<lambda>i. hexdigit (unat (drop_bit (4 * (7 - i)) w AND 15))) [0..<8]"

text \<open>\<^verbatim>\<open>s.encode()\<close>: the serialised text is ASCII, one byte for each character.\<close>

definition encode :: "string \<Rightarrow> 8 word list" where
  "encode s = map (\<lambda>c. of_nat (of_char c)) s"

definition sha256_hexdigest :: "8 word list \<Rightarrow> string" where
  "sha256_hexdigest m =
     (let p = sha_pad m;
          (a, b, c, d, e, f, g, h) = sha_blocks (length p div 64) sha_H0 p
      in hex32 a @ hex32 b @ hex32 c @ hex32 d @ hex32 e @ hex32 f @ hex32 g @ hex32 h)"

section \<open>Block\<close>

record block =
  index :: int
  timestamp :: pyfloat
  data :: pydict
  previous_hash :: string
  nonce :: int
  hash :: string

definition block_string :: "block \<Rightarrow> string" where
  "block_string b = dumps (JObj [
      (''index'', JInt (index b)),
      (''timestamp'', JFloat (timestamp b)),
      (''data'', JObj (data b)),
      (''previous_hash'', JStr (previous_hash b)),
      (''nonce'', JInt (nonce b))])"

definition compute_hash :: "block \<Rightarrow> string" where
  "compute_hash b = sha256_hexdigest (encode (block_string b))"

text \<open>The constructor \<^verbatim>\<open>Block.__init__\<close>: the fields, then the digest of them.\<close>

definition Block :: "int \<Rightarrow> pyfloat \<Rightarrow> pydict \<Rightarrow> string \<Rightarrow> int \<Rightarrow> block" where
  "Block i t d p n =
     (let self = \<lparr>index = i, timestamp = t, data = d, previous_hash = p, nonce = n, hash = []\<rparr>
      in self\<lparr>hash := compute_hash self\<rparr>)"

section \<open>Outcomes of a call, the file system, the ledger\<close>

datatype pyerror = IndexError | KeyError string | TypeError | JSONDecodeError | OSError string

text \<open>
  A call returns, raises, or runs forever. \<open>Unmodelled\<close> marks a run that leaves the
  constructor's annotated types (\<^verbatim>\<open>index:int, timestamp:float, data:Dict,
  previous_hash:str, nonce:int\<close>): a persisted record with, say, a string for its
  index loads without complaint in Python, and nothing is stated about such a run.
\<close>

datatype 'a outcome = Returns 'a | Raises pyerror | Diverges | Unmodelled

fun obind :: "'a outcome \<Rightarrow> ('a \<Rightarrow> 'b outcome) \<Rightarrow> 'b outcome" where
  "obind (Returns x) f = f x"
| "obind (Raises e) f = Raises e"
| "obind Diverges f = Diverges"
| "obind Unmodelled f = Unmodelled"

text \<open>
  A path holds a JSON document, or something that cannot be opened or parsed
  (\<open>Corrupt\<close>), or nothing. \<open>write_error\<close> gives the paths where opening for
  writing raises, with the message of the exception.
\<close>

datatype stored = Corrupt | Doc json

record world =
  files :: "string \<rightharpoonup> stored"
  write_error :: "string \<rightharpoonup> string"
  stdout :: "string list"

record blockchain =
  chain :: "block list"
  difficulty :: int
  persist_file :: string

definition to_list :: "blockchain \<Rightarrow> json" where
  "to_list self = JList (map (\<lambda>b. JObj [
      (''index'', JInt (index b)),
      (''timestamp'', JFloat (timestamp b)),
      (''data'', JObj (data b)),
      (''previous_hash'', JStr (previous_hash b)),
      (''nonce'', JInt (nonce b)),
      (''hash'', JStr (hash b))]) (chain self))"

text \<open>\<^verbatim>\<open>save_chain\<close> catches every exception of the write and prints it.\<close>

definition save_chain :: "blockchain \<Rightarrow> world \<Rightarrow> world" where
  "save_chain self w =
     (case write_error w (persist_file self) of
        None \<Rightarrow> w\<lparr>files := (files w)(persist_file self \<mapsto> Doc (to_list self))\<rparr>
      | Some e \<Rightarrow> w\<lparr>stdout := stdout w @ [''Error saving chain: '' @ e]\<rparr>)"

definition genesis_data :: pydict where
  "genesis_data = [(''type'', JStr ''GENESIS''), (''note'', JStr ''genesis block'')]"

definition create_genesis_block :: "blockchain \<Rightarrow> pyfloat \<Rightarrow> world \<Rightarrow> blockchain \<times> world" where
  "create_genesis_block self now w =
     (let genesis = Block 0 now genesis_data ''0'' 0;
          self' = self\<lparr>chain := [genesis]\<rparr>
      in (self', save_chain self' w))"

subsection \<open>\<^verbatim>\<open>load_chain\<close>\<close>

definition getitem :: "json \<Rightarrow> string \<Rightarrow> json outcome" where
  "getitem item key =
     (case item of
        JObj kvs \<Rightarrow> (case map_of kvs key of None \<Rightarrow> Raises (KeyError key) | Some v \<Rightarrow> Returns v)
      | _ \<Rightarrow> Raises TypeError)"

definition dict_get :: "json \<Rightarrow> string \<Rightarrow> json \<Rightarrow> json" where
  "dict_get item key dflt =
     (case item of
        JObj kvs \<Rightarrow> (case map_of kvs key of None \<Rightarrow> dflt | Some v \<Rightarrow> v)
      | _ \<Rightarrow> dflt)"

definition as_int :: "json \<Rightarrow> int outcome" where
  "as_int v = (case v of JInt i \<Rightarrow> Returns i | _ \<Rightarrow> Unmodelled)"

definition as_float :: "json \<Rightarrow> pyfloat outcome" where
  "as_float v = (case v of JFloat r \<Rightarrow> Returns r | _ \<Rightarrow> Unmodelled)"

definition as_dict :: "json \<Rightarrow> pydict outcome" where
  "as_dict v = (case v of JObj d \<Rightarrow> Returns d | _ \<Rightarrow> Unmodelled)"

definition as_str :: "json \<Rightarrow> string outcome" where
  "as_str v = (case v of JStr s \<Rightarrow> Returns s | _ \<Rightarrow> Unmodelled)"

text \<open>
  One pass of the loop body: the four subscripts raise \<^verbatim>\<open>KeyError\<close> on a missing
  key, \<^verbatim>\<open>nonce\<close> defaults to 0 and \<^verbatim>\<open>hash\<close> to the digest the constructor
  computed; a stored \<^verbatim>\<open>hash\<close> is taken as it is.
\<close>

definition load_item :: "json \<Rightarrow> block outcome" where
  "load_item item =
     obind (getitem item ''index'') (\<lambda>vi.
     obind (getitem item ''timestamp'') (\<lambda>vt.
     obind (getitem item ''data'') (\<lambda>vd.
     obind (getitem item ''previous_hash'') (\<lambda>vp.
     obind (as_int vi) (\<lambda>i.
     obind (as_float vt) (\<lambda>t.
     obind (as_dict vd) (\<lambda>d.
     obind (as_str vp) (\<lambda>p.
     obind (as_int (dict_get item ''nonce'' (JInt 0))) (\<lambda>n.
       (let b = Block i t d p n in
        obind (as_str (dict_get item ''hash'' (JStr (compute_hash b)))) (\<lambda>h.
          Returns (b\<lparr>hash := h\<rparr>))))))))))))"

fun load_items :: "json list \<Rightarrow> block list outcome" where
  "load_items [] = Returns []"
| "load_items (item # rest) =
     obind (load_item item) (\<lambda>b. obind (load_items rest) (\<lambda>bs. Returns (b # bs)))"

text \<open>\<^verbatim>\<open>for item in raw\<close>: a list gives its elements, a dict its keys, a string its characters.\<close>

definition iterate :: "json \<Rightarrow> json list outcome" where
  "iterate raw =
     (case raw of
        JList xs \<Rightarrow> Returns xs
      | JObj kvs \<Rightarrow> Returns (map (\<lambda>kv. JStr (fst kv)) kvs)
      | JStr s \<Rightarrow> Returns (map (\<lambda>c. JStr [c]) s)
      | _ \<Rightarrow> Raises TypeError)"

definition load_chain :: "blockchain \<Rightarrow> world \<Rightarrow> blockchain outcome" where
  "load_chain self w =
     (case files w (persist_file self) of
        None \<Rightarrow> Raises (OSError ''No such file or directory'')
      | Some Corrupt \<Rightarrow> Raises JSONDecodeError
      | Some (Doc raw) \<Rightarrow>
          obind (iterate raw) (\<lambda>items.
          obind (load_items items) (\<lambda>c. Returns (self\<lparr>chain := c\<rparr>))))"

text \<open>\<^verbatim>\<open>Blockchain.__init__\<close>; \<open>now\<close> is what \<^verbatim>\<open>time.time()\<close> gives.\<close>

definition Blockchain_init :: "string \<Rightarrow> int \<Rightarrow> pyfloat \<Rightarrow> world \<Rightarrow> (blockchain \<times> world) outcome" where
  "Blockchain_init path d now w =
     (let self = \<lparr>chain = [], difficulty = d, persist_file = path\<rparr> in
      if files w path \<noteq> None then
        (case load_chain self w of
           Returns self' \<Rightarrow> Returns (self', w)
         | Raises e \<Rightarrow> Returns (create_genesis_block self now w)
         | Diverges \<Rightarrow> Diverges
         | Unmodelled \<Rightarrow> Unmodelled)
      else Returns (create_genesis_block self now w))"

subsection \<open>\<^verbatim>\<open>proof_of_work\<close> and \<^verbatim>\<open>add_block\<close>\<close>

definition startswith :: "string \<Rightarrow> string \<Rightarrow> bool" where
  "startswith s p = (take (length p) s = p)"

text \<open>\<^verbatim>\<open>'0' * difficulty\<close>; a negative count gives the empty string.\<close>

definition zeroes :: "int \<Rightarrow> string" where
  "zeroes d = replicate (nat d) CHR ''0''"

partial_function (option) pow_loop :: "int \<Rightarrow> block \<Rightarrow> string \<Rightarrow> (string \<times> block) option" where
  "pow_loop d b computed =
     (if \<not> startswith computed (zeroes d)
      then (let b' = b\<lparr>nonce := nonce b + 1\<rparr> in pow_loop d b' (compute_hash b'))
      else Some (computed, b\<lparr>hash := computed\<rparr>))"

definition proof_of_work :: "blockchain \<Rightarrow> block \<Rightarrow> (string \<times> block) option" where
  "proof_of_work self b = pow_loop (difficulty self) b (compute_hash b)"

definition add_block ::
  "blockchain \<Rightarrow> pydict \<Rightarrow> pyfloat \<Rightarrow> world \<Rightarrow> (block \<times> blockchain \<times> world) outcome" where
  "add_block self d now w =
     (if chain self = [] then Raises IndexError
      else
        (let prev = last (chain self);
             new_index = index prev + 1;
             b = Block new_index now d (hash prev) 0
         in case proof_of_work self b of
              None \<Rightarrow> Diverges
            | Some (computed, b') \<Rightarrow>
                (let self' = self\<lparr>chain := chain self @ [b']\<rparr>
                 in Returns (b', self', save_chain self' w))))"

subsection \<open>\<^verbatim>\<open>is_chain_valid\<close> and \<^verbatim>\<open>get_all_events\<close>\<close>

fun valid_loop :: "block list \<Rightarrow> nat list \<Rightarrow> bool" where
  "valid_loop c [] = True"
| "valid_loop c (i # rest) =
     (let curr = c ! i; prev = c ! (i - 1) in
      if previous_hash curr \<noteq> hash prev then False
      else if compute_hash curr \<noteq> hash curr then False
      else valid_loop c rest)"

definition is_chain_valid :: "blockchain \<Rightarrow> bool" where
  "is_chain_valid self = valid_loop (chain self) [1 ..< length (chain self)]"

definition get_all_events :: "blockchain \<Rightarrow> json list" where
  "get_all_events self = map (\<lambda>b. JObj [
      (''block_index'', JInt (index b)),
      (''timestamp'', JFloat (timestamp b)),
      (''data'', JObj (data b)),
      (''hash'', JStr (hash b)),
      (''previous_hash'', JStr (previous_hash b))]) (drop 1 (chain self))"

subsection \<open>A run of appends, and a small ledger for the examples\<close>

text \<open>The caller's loop: one \<^verbatim>\<open>add_block\<close> for each payload, each at its own time.\<close>

fun add_blocks :: "blockchain \<Rightarrow> world \<Rightarrow> (pydict \<times> pyfloat) list \<Rightarrow> (blockchain \<times> world) outcome" where
  "add_blocks self w [] = Returns (self, w)"
| "add_blocks self w ((payload, now) # rest) =
     obind (add_block self payload now w) (\<lambda>(b, self', w'). add_blocks self' w' rest)"

definition example_genesis :: block where
  "example_genesis = Block 0 ''1700000000.25'' genesis_data ''0'' 0"

definition example_ledger :: "int \<Rightarrow> blockchain" where
  "example_ledger d = \<lparr>chain = [example_genesis], difficulty = d, persist_file = ''chain.json''\<rparr>"

definition example_payload :: pydict where
  "example_payload = [(''product_id'', JStr ''P1''), (''stage'', JStr ''Created'')]"

definition example_block :: block where
  "example_block = Block 1 ''1700000001.5'' example_payload (hash example_genesis) 0"

definition example_world :: world where
  "example_world = \<lparr>files = Map.empty, write_error = Map.empty, stdout = []\<rparr>"


section \<open>Shared facts\<close>

lemma sort_key_fst_unique:
  assumes "distinct (map fst xs)" "distinct (map fst ys)" "map_of xs = map_of ys"
  shows "sort_key fst xs = sort_key fst ys"
proof -
  have s: "set xs = set ys"
    using assms by (simp add: map_of_inject_set)
  have "inj_on fst (set xs)"
    using assms(1) by (simp add: distinct_map)
  then have inj: "inj_on fst (set (sort_key fst xs) \<union> set (sort_key fst ys))"
    using s by simp
  show ?thesis
    by (rule map_sorted_distinct_set_unique [OF inj])
       (use assms s in \<open>simp_all add: distinct_map\<close>)
qed

text \<open>The five keys of the hashed dict sort to data, index, nonce, previous_hash, timestamp.\<close>

lemma block_string_fields:
  "block_string b = ''{'' @ join '', ''
     [encode_basestring_ascii ''data'' @ '': '' @ dumps (JObj (data b)),
      encode_basestring_ascii ''index'' @ '': '' @ str_int (index b),
      encode_basestring_ascii ''nonce'' @ '': '' @ str_int (nonce b),
      encode_basestring_ascii ''previous_hash'' @ '': '' @ encode_basestring_ascii (previous_hash b),
      encode_basestring_ascii ''timestamp'' @ '': '' @ timestamp b] @ ''}''"
  unfolding block_string_def
  by (subst dumps.simps) (simp add: less_eq_char_def less_char_def)

lemma compute_hash_cong:
  assumes "index b1 = index b2" "timestamp b1 = timestamp b2" "previous_hash b1 = previous_hash b2"
    "nonce b1 = nonce b2" "dumps (JObj (data b1)) = dumps (JObj (data b2))"
  shows "compute_hash b1 = compute_hash b2"
  using assms by (simp add: compute_hash_def block_string_fields del: dumps.simps)

lemma valid_loop_iff:
  "valid_loop c js =
     (\<forall>i \<in> set js. previous_hash (c ! i) = hash (c ! (i - 1)) \<and> compute_hash (c ! i) = hash (c ! i))"
  by (induction js) (auto simp: Let_def)

section \<open>Validation\<close>

text \<open>
  C5. \<^verbatim>\<open>is_chain_valid\<close> is true exactly when every position from 1 on passes both
  checks: the block's \<^verbatim>\<open>previous_hash\<close> is the stored hash of the block before it, and
  its stored hash is the digest recomputed from its fields. So it is true for the empty
  chain and for a chain of the genesis block alone, and false as soon as one position
  from 1 on fails a check. The ledger's difficulty plays no part in the answer.
\<close>

theorem is_chain_valid_semantics:
  "(is_chain_valid self =
     (\<forall>i. 1 \<le> i \<and> i < length (chain self) \<longrightarrow>
        previous_hash (chain self ! i) = hash (chain self ! (i - 1)) \<and>
        compute_hash (chain self ! i) = hash (chain self ! i)))
   \<and> (length (chain self) \<le> 1 \<longrightarrow> is_chain_valid self)
   \<and> is_chain_valid (self\<lparr>difficulty := d\<rparr>) = is_chain_valid self"
  by (auto simp: is_chain_valid_def valid_loop_iff)

theorem is_chain_valid_semantics_witness:
  "is_chain_valid \<lparr>chain = [\<lparr>index = 0, timestamp = ''1700000000.5'', data = [],
        previous_hash = ''0'', nonce = 0, hash = ''ab''\<rparr>], difficulty = 2, persist_file = ''chain.json''\<rparr>
   \<and> \<not> is_chain_valid \<lparr>chain = [
        \<lparr>index = 0, timestamp = ''1700000000.5'', data = [], previous_hash = ''0'', nonce = 0, hash = ''ab''\<rparr>,
        \<lparr>index = 1, timestamp = ''1700000001.5'', data = [], previous_hash = ''cd'', nonce = 0, hash = ''ef''\<rparr>],
        difficulty = 2, persist_file = ''chain.json''\<rparr>"
proof
  show "is_chain_valid \<lparr>chain = [\<lparr>index = 0, timestamp = ''1700000000.5'', data = [],
        previous_hash = ''0'', nonce = 0, hash = ''ab''\<rparr>], difficulty = 2, persist_file = ''chain.json''\<rparr>"
    using is_chain_valid_semantics
      [of "\<lparr>chain = [\<lparr>index = 0, timestamp = ''1700000000.5'', data = [],
        previous_hash = ''0'', nonce = 0, hash = ''ab''\<rparr>], difficulty = 2, persist_file = ''chain.json''\<rparr>"]
    by simp
next
  let ?c = "\<lparr>chain = [
        \<lparr>index = 0, timestamp = ''1700000000.5'', data = [], previous_hash = ''0'', nonce = 0, hash = ''ab''\<rparr>,
        \<lparr>index = 1, timestamp = ''1700000001.5'', data = [], previous_hash = ''cd'', nonce = 0, hash = ''ef''\<rparr>],
        difficulty = 2, persist_file = ''chain.json''\<rparr>"
  have "\<not> (\<forall>i. 1 \<le> i \<and> i < length (chain ?c) \<longrightarrow>
        previous_hash (chain ?c ! i) = hash (chain ?c ! (i - 1)) \<and>
        compute_hash (chain ?c ! i) = hash (chain ?c ! i))"
    by (simp add: exI [of _ 1])
  with is_chain_valid_semantics [of ?c] show "\<not> is_chain_valid ?c"
    by blast
qed

section \<open>Canonical digest\<close>

text \<open>
  C8. Two blocks with the same index, timestamp, previous hash and nonce, whose payload
  dicts hold the same key/value pairs (equal as maps, whatever the insertion order),
  have the same digest: \<^verbatim>\<open>sort_keys=True\<close> orders the keys before hashing.
\<close>

theorem digest_canonical:
  assumes "index b1 = index b2" and "timestamp b1 = timestamp b2"
    and "previous_hash b1 = previous_hash b2" and "nonce b1 = nonce b2"
    and "distinct (map fst (data b1))" and "distinct (map fst (data b2))"
    and "map_of (data b1) = map_of (data b2)"
  shows "compute_hash b1 = compute_hash b2"
proof -
  have "sort_key fst (data b1) = sort_key fst (data b2)"
    using assms(5-7) by (rule sort_key_fst_unique)
  then have "dumps (JObj (data b1)) = dumps (JObj (data b2))"
    by simp
  with assms(1-4) show ?thesis
    by (rule compute_hash_cong)
qed

theorem digest_canonical_witness:
  "compute_hash \<lparr>index = 1, timestamp = ''1700000000.5'',
       data = [(''stage'', JStr ''Created''), (''product_id'', JStr ''P1'')],
       previous_hash = ''0'', nonce = 0, hash = []\<rparr>
   = compute_hash \<lparr>index = 1, timestamp = ''1700000000.5'',
       data = [(''product_id'', JStr ''P1''), (''stage'', JStr ''Created'')],
       previous_hash = ''0'', nonce = 0, hash = []\<rparr>"
  by (rule digest_canonical) (simp_all add: fun_eq_iff)

section \<open>A persisted empty list\<close>

text \<open>
  C10. When the persisted file holds the empty JSON list, construction returns a ledger
  with an empty chain and leaves the file system as it was (no genesis block is made
  or saved); \<^verbatim>\<open>is_chain_valid\<close> is true and \<^verbatim>\<open>get_all_events\<close> is empty on it; and
  \<^verbatim>\<open>add_block\<close> raises \<^verbatim>\<open>IndexError\<close> at \<^verbatim>\<open>self.chain[-1]\<close> for every payload.
\<close>

theorem empty_list_file:
  assumes "files w path = Some (Doc (JList []))"
  shows "Blockchain_init path d now w = Returns (\<lparr>chain = [], difficulty = d, persist_file = path\<rparr>, w)
    \<and> is_chain_valid \<lparr>chain = [], difficulty = d, persist_file = path\<rparr>
    \<and> get_all_events \<lparr>chain = [], difficulty = d, persist_file = path\<rparr> = []
    \<and> add_block \<lparr>chain = [], difficulty = d, persist_file = path\<rparr> payload t w' = Raises IndexError"
  using assms
  by (simp add: Blockchain_init_def load_chain_def iterate_def is_chain_valid_def
      get_all_events_def add_block_def)

theorem empty_list_file_witness:
  "Blockchain_init ''chain.json'' 2 ''1700000000.5''
      \<lparr>files = [''chain.json'' \<mapsto> Doc (JList [])], write_error = Map.empty, stdout = []\<rparr>
     = Returns (\<lparr>chain = [], difficulty = 2, persist_file = ''chain.json''\<rparr>,
         \<lparr>files = [''chain.json'' \<mapsto> Doc (JList [])], write_error = Map.empty, stdout = []\<rparr>)
   \<and> add_block \<lparr>chain = [], difficulty = 2, persist_file = ''chain.json''\<rparr>
        [(''product_id'', JStr ''P1'')] ''1700000001.5''
        \<lparr>files = [''chain.json'' \<mapsto> Doc (JList [])], write_error = Map.empty, stdout = []\<rparr>
     = Raises IndexError"
  using empty_list_file [of
      "\<lparr>files = [''chain.json'' \<mapsto> Doc (JList [])], write_error = Map.empty, stdout = []\<rparr>"
      "''chain.json''" 2 "''1700000000.5''" "[(''product_id'', JStr ''P1'')]" "''1700000001.5''"
      "\<lparr>files = [''chain.json'' \<mapsto> Doc (JList [])], write_error = Map.empty, stdout = []\<rparr>"]
  by simp

section \<open>Facts about the digest and the sealing loop\<close>

lemma compute_hash_hash_update [simp]: "compute_hash (b\<lparr>hash := h\<rparr>) = compute_hash b"
  by (simp add: compute_hash_def block_string_def)

lemma length_hex32: "length (hex32 w) = 8"
  by (simp add: hex32_def)

lemma length_compute_hash: "length (compute_hash b) = 64"
  by (simp add: compute_hash_def sha256_hexdigest_def Let_def length_hex32 split: prod.splits)

lemma pow_loop_finds:
  assumes "startswith (compute_hash (b\<lparr>nonce := nonce b + int k\<rparr>)) (zeroes d)"
    and "\<forall>j<k. \<not> startswith (compute_hash (b\<lparr>nonce := nonce b + int j\<rparr>)) (zeroes d)"
  shows "pow_loop d b (compute_hash b) =
    Some (compute_hash (b\<lparr>nonce := nonce b + int k\<rparr>),
          b\<lparr>nonce := nonce b + int k, hash := compute_hash (b\<lparr>nonce := nonce b + int k\<rparr>)\<rparr>)"
  using assms
proof (induction k arbitrary: b)
  case 0
  then show ?case
    by (subst pow_loop.simps) simp
next
  case (Suc k)
  let ?b' = "b\<lparr>nonce := nonce b + 1\<rparr>"
  from Suc.prems(2) have no: "\<not> startswith (compute_hash b) (zeroes d)"
    using Suc.prems(2) [rule_format, of 0] by simp
  have 1: "startswith (compute_hash (?b'\<lparr>nonce := nonce ?b' + int k\<rparr>)) (zeroes d)"
    using Suc.prems(1) by (simp add: add.assoc)
  have 2: "\<forall>j<k. \<not> startswith (compute_hash (?b'\<lparr>nonce := nonce ?b' + int j\<rparr>)) (zeroes d)"
  proof (intro allI impI)
    fix j assume "j < k"
    then have "Suc j < Suc k" by simp
    with Suc.prems(2) have "\<not> startswith (compute_hash (b\<lparr>nonce := nonce b + int (Suc j)\<rparr>)) (zeroes d)"
      by blast
    then show "\<not> startswith (compute_hash (?b'\<lparr>nonce := nonce ?b' + int j\<rparr>)) (zeroes d)"
      by (simp add: add.assoc)
  qed
  have "pow_loop d b (compute_hash b) = pow_loop d ?b' (compute_hash ?b')"
    using no by (subst pow_loop.simps) (simp add: Let_def)
  also have "\<dots> = Some (compute_hash (?b'\<lparr>nonce := nonce ?b' + int k\<rparr>),
          ?b'\<lparr>nonce := nonce ?b' + int k, hash := compute_hash (?b'\<lparr>nonce := nonce ?b' + int k\<rparr>)\<rparr>)"
    using 1 2 by (rule Suc.IH)
  finally show ?case
    by (simp add: add.assoc)
qed

lemma pow_loop_Some:
  assumes "pow_loop d b c = Some r"
  shows "c = compute_hash b \<longrightarrow>
     (\<exists>k. startswith (compute_hash (b\<lparr>nonce := nonce b + int k\<rparr>)) (zeroes d))"
proof (rule pow_loop.raw_induct [where P = "\<lambda>d b c r. c = compute_hash b \<longrightarrow>
     (\<exists>k. startswith (compute_hash (b\<lparr>nonce := nonce b + int k\<rparr>)) (zeroes d))", OF _ assms])
  fix pl :: "int \<Rightarrow> block \<Rightarrow> string \<Rightarrow> (string \<times> block) option"
  fix d b c r
  assume IH: "\<And>d b c r. pl d b c = Some r \<Longrightarrow> c = compute_hash b \<longrightarrow>
     (\<exists>k. startswith (compute_hash (b\<lparr>nonce := nonce b + int k\<rparr>)) (zeroes d))"
  assume step: "(if \<not> startswith c (zeroes d)
      then (let b' = b\<lparr>nonce := nonce b + 1\<rparr> in pl d b' (compute_hash b'))
      else Some (c, b\<lparr>hash := c\<rparr>)) = Some r"
  show "c = compute_hash b \<longrightarrow>
     (\<exists>k. startswith (compute_hash (b\<lparr>nonce := nonce b + int k\<rparr>)) (zeroes d))"
  proof (intro impI)
    assume ceq: "c = compute_hash b"
    show "\<exists>k. startswith (compute_hash (b\<lparr>nonce := nonce b + int k\<rparr>)) (zeroes d)"
    proof (cases "startswith c (zeroes d)")
      case True
      with ceq have "startswith (compute_hash (b\<lparr>nonce := nonce b + int 0\<rparr>)) (zeroes d)"
        by simp
      then show ?thesis by blast
    next
      case False
      let ?b' = "b\<lparr>nonce := nonce b + 1\<rparr>"
      from False step have "pl d ?b' (compute_hash ?b') = Some r"
        by (simp add: Let_def)
      from IH [OF this] obtain k where
        "startswith (compute_hash (?b'\<lparr>nonce := nonce ?b' + int k\<rparr>)) (zeroes d)" by blast
      then have "startswith (compute_hash (b\<lparr>nonce := nonce b + int (Suc k)\<rparr>)) (zeroes d)"
        by (simp add: add.assoc)
      then show ?thesis by blast
    qed
  qed
qed


lemma not_startswith_long: "length p > length s \<Longrightarrow> \<not> startswith s p"
  by (auto simp: startswith_def)

lemma no_seal_above_64: "64 < d \<Longrightarrow> \<not> startswith (compute_hash b) (zeroes d)"
  by (rule not_startswith_long) (simp add: length_compute_hash zeroes_def)

lemma startswith_Nil [simp]: "startswith s []"
  by (simp add: startswith_def)

lemma zeroes_nonpos [simp]: "d \<le> 0 \<Longrightarrow> zeroes d = []"
  by (simp add: zeroes_def)

lemma pow_loop_least:
  assumes "startswith (compute_hash (b\<lparr>nonce := nonce b + int n\<rparr>)) (zeroes d)"
  shows "\<exists>k\<le>n. pow_loop d b (compute_hash b) =
      Some (compute_hash (b\<lparr>nonce := nonce b + int k\<rparr>),
            b\<lparr>nonce := nonce b + int k, hash := compute_hash (b\<lparr>nonce := nonce b + int k\<rparr>)\<rparr>)
    \<and> startswith (compute_hash (b\<lparr>nonce := nonce b + int k\<rparr>)) (zeroes d)
    \<and> (\<forall>j<k. \<not> startswith (compute_hash (b\<lparr>nonce := nonce b + int j\<rparr>)) (zeroes d))"
proof -
  define Q where "Q k = startswith (compute_hash (b\<lparr>nonce := nonce b + int k\<rparr>)) (zeroes d)" for k
  define k where "k = (LEAST k. Q k)"
  have "Q n" using assms by (simp add: Q_def)
  then have Qk: "Q k" and le: "k \<le> n"
    unfolding k_def by (rule LeastI, rule Least_le)
  have less: "\<forall>j<k. \<not> Q j"
    unfolding k_def using not_less_Least by blast
  have "pow_loop d b (compute_hash b) =
      Some (compute_hash (b\<lparr>nonce := nonce b + int k\<rparr>),
            b\<lparr>nonce := nonce b + int k, hash := compute_hash (b\<lparr>nonce := nonce b + int k\<rparr>)\<rparr>)"
    by (rule pow_loop_finds) (use Qk less in \<open>simp_all add: Q_def\<close>)
  with Qk less le show ?thesis
    unfolding Q_def by blast
qed

lemma pow_loop_result:
  assumes "pow_loop d b (compute_hash b) = Some (c, b')"
  shows "\<exists>k. b' = b\<lparr>nonce := nonce b + int k, hash := c\<rparr>
     \<and> c = compute_hash (b\<lparr>nonce := nonce b + int k\<rparr>)
     \<and> startswith c (zeroes d)
     \<and> (\<forall>j<k. \<not> startswith (compute_hash (b\<lparr>nonce := nonce b + int j\<rparr>)) (zeroes d))"
proof -
  from pow_loop_Some [OF assms] obtain n where
    "startswith (compute_hash (b\<lparr>nonce := nonce b + int n\<rparr>)) (zeroes d)" by blast
  from pow_loop_least [OF this] assms show ?thesis
    by auto
qed


section \<open>Proof of work\<close>




section \<open>Facts about the constructor and \<^verbatim>\<open>add_block\<close>\<close>

lemma pow_loop_nonpos: "d \<le> 0 \<Longrightarrow> pow_loop d b c = Some (c, b\<lparr>hash := c\<rparr>)"
  by (subst pow_loop.simps) simp

lemma Block_fields [simp]:
  "index (Block i t d p n) = i" "timestamp (Block i t d p n) = t" "data (Block i t d p n) = d"
  "previous_hash (Block i t d p n) = p" "nonce (Block i t d p n) = n"
  by (simp_all add: Block_def Let_def)

lemma hash_Block [simp]: "hash (Block i t d p n) = compute_hash (Block i t d p n)"
proof -
  have "compute_hash (Block i t d p n)
      = compute_hash \<lparr>index = i, timestamp = t, data = d, previous_hash = p, nonce = n, hash = []\<rparr>"
    by (rule compute_hash_cong) (simp_all add: Block_def Let_def)
  then show ?thesis
    by (simp add: Block_def Let_def)
qed

lemma add_block_Returns:
  assumes "add_block self payload now w = Returns (b, self', w')"
  shows "chain self \<noteq> [] \<and> self' = self\<lparr>chain := chain self @ [b]\<rparr> \<and> w' = save_chain self' w
    \<and> index b = index (last (chain self)) + 1 \<and> timestamp b = now \<and> data b = payload
    \<and> previous_hash b = hash (last (chain self)) \<and> 0 \<le> nonce b \<and> hash b = compute_hash b
    \<and> startswith (hash b) (zeroes (difficulty self))"
proof -
  let ?c = "Block (index (last (chain self)) + 1) now payload (hash (last (chain self))) 0"
  from assms have ne: "chain self \<noteq> []"
    by (auto simp: add_block_def split: if_splits)
  with assms obtain c where pw: "pow_loop (difficulty self) ?c (compute_hash ?c) = Some (c, b)"
    and s: "self' = self\<lparr>chain := chain self @ [b]\<rparr>" "w' = save_chain self' w"
    by (auto simp: add_block_def proof_of_work_def Let_def split: option.splits)
  from pow_loop_result [OF pw] obtain k where
    "b = ?c\<lparr>nonce := nonce ?c + int k, hash := c\<rparr>"
    "c = compute_hash (?c\<lparr>nonce := nonce ?c + int k\<rparr>)" "startswith c (zeroes (difficulty self))"
    by blast
  with ne s show ?thesis by simp
qed

lemma reseal_same [simp]: "(Block i t d p n)\<lparr>hash := compute_hash (Block i t d p n)\<rparr> = Block i t d p n"
proof -
  have "(Block i t d p n)\<lparr>hash := hash (Block i t d p n)\<rparr> = Block i t d p n"
    by simp
  then show ?thesis by (simp only: hash_Block)
qed

lemma add_block_difficulty_0:
  assumes "chain self \<noteq> []" "difficulty self \<le> 0"
  shows "add_block self payload now w =
    Returns (Block (index (last (chain self)) + 1) now payload (hash (last (chain self))) 0,
      self\<lparr>chain := chain self @ [Block (index (last (chain self)) + 1) now payload (hash (last (chain self))) 0]\<rparr>,
      save_chain (self\<lparr>chain := chain self @ [Block (index (last (chain self)) + 1) now payload (hash (last (chain self))) 0]\<rparr>) w)"
  using assms by (simp add: add_block_def proof_of_work_def pow_loop_nonpos Let_def)

section \<open>Append\<close>



section \<open>Facts about what is raised\<close>



section \<open>Errors of the persistence layer\<close>




section \<open>Facts about loading and about runs of appends\<close>

lemma load_item_to_list:
  "load_item (JObj [
      (''index'', JInt (index b)),
      (''timestamp'', JFloat (timestamp b)),
      (''data'', JObj (data b)),
      (''previous_hash'', JStr (previous_hash b)),
      (''nonce'', JInt (nonce b)),
      (''hash'', JStr (hash b))]) = Returns b"
  by (simp add: load_item_def getitem_def dict_get_def as_int_def as_float_def as_dict_def
      as_str_def Let_def Block_def)

lemma load_items_to_list:
  "load_items (map (\<lambda>b. JObj [
      (''index'', JInt (index b)),
      (''timestamp'', JFloat (timestamp b)),
      (''data'', JObj (data b)),
      (''previous_hash'', JStr (previous_hash b)),
      (''nonce'', JInt (nonce b)),
      (''hash'', JStr (hash b))]) bs) = Returns bs"
  by (induction bs) (simp_all add: load_item_to_list del: load_item_def)

lemma load_chain_to_list:
  assumes "files w (persist_file self) = Some (Doc (to_list other))"
  shows "load_chain self w = Returns (self\<lparr>chain := chain other\<rparr>)"
  using assms by (simp add: load_chain_def to_list_def iterate_def load_items_to_list)

lemma reload_to_list:
  assumes "files w path = Some (Doc (to_list other))"
  shows "Blockchain_init path d now w = Returns (\<lparr>chain = chain other, difficulty = d, persist_file = path\<rparr>, w)"
  using assms load_chain_to_list [of w "\<lparr>chain = [], difficulty = d, persist_file = path\<rparr>" other]
  by (simp add: Blockchain_init_def)

lemma add_blocks_chain:
  assumes "add_blocks self w ps = Returns (self', w')"
  shows "\<exists>bs. chain self' = chain self @ bs \<and> length bs = length ps
     \<and> (chain self \<noteq> [] \<longrightarrow> map index bs = map (\<lambda>k. index (last (chain self)) + 1 + int k) [0..<length ps])
     \<and> map data bs = map fst ps \<and> map timestamp bs = map snd ps"
  using assms
proof (induction ps arbitrary: self w)
  case Nil
  then show ?case by simp
next
  case (Cons p ps)
  obtain payload now where p: "p = (payload, now)" by (cases p)
  from Cons.prems p obtain b s1 w1 where
    ab: "add_block self payload now w = Returns (b, s1, w1)"
    and rest: "add_blocks s1 w1 ps = Returns (self', w')"
    by (cases "add_block self payload now w") (auto split: prod.splits)
  from add_block_Returns [OF ab] have b: "chain self \<noteq> []" "chain s1 = chain self @ [b]"
    "index b = index (last (chain self)) + 1" "timestamp b = now" "data b = payload"
    by simp_all
  from Cons.IH [OF rest] obtain bs where bs: "chain self' = chain s1 @ bs" "length bs = length ps"
    "map index bs = map (\<lambda>k. index (last (chain s1)) + 1 + int k) [0..<length ps]"
    "map data bs = map fst ps" "map timestamp bs = map snd ps"
    using b(2) by auto
  have "map index (b # bs) = map (\<lambda>k. index (last (chain self)) + 1 + int k) [0..<length (p # ps)]"
    using bs(3) b(2,3) by (simp add: upt_conv_Cons map_Suc_upt [symmetric] del: upt_Suc)
  with bs b p show ?case
    by (intro exI [of _ "b # bs"]) simp
qed

lemma example_genesis_index [simp]: "index example_genesis = 0"
  by (simp add: example_genesis_def)


section \<open>Persist, then reload\<close>

text \<open>
  C6. When the file can be written, \<^verbatim>\<open>save_chain\<close> followed by the construction of a
  new ledger on the same path (with any difficulty, at any time) returns a ledger with
  the same chain, block for block, so \<^verbatim>\<open>is_chain_valid\<close> and \<^verbatim>\<open>get_all_events\<close>
  give on it what they gave before. Payloads are dicts with string keys, as the claim
  has them.
\<close>

theorem persist_reload:
  assumes "write_error w (persist_file self) = None"
  shows "\<exists>self'. Blockchain_init (persist_file self) d now (save_chain self w) = Returns (self', save_chain self w)
     \<and> chain self' = chain self
     \<and> is_chain_valid self' = is_chain_valid self
     \<and> get_all_events self' = get_all_events self"
proof -
  have "files (save_chain self w) (persist_file self) = Some (Doc (to_list self))"
    using assms by (simp add: save_chain_def)
  from reload_to_list [OF this, of d now] show ?thesis
    by (simp add: is_chain_valid_def get_all_events_def)
qed

theorem persist_reload_witness:
  "\<exists>self'. Blockchain_init ''chain.json'' 2 ''1700000002.5''
        (save_chain \<lparr>chain = [example_genesis, example_block], difficulty = 0, persist_file = ''chain.json''\<rparr> example_world)
      = Returns (self', save_chain \<lparr>chain = [example_genesis, example_block], difficulty = 0, persist_file = ''chain.json''\<rparr> example_world)
     \<and> chain self' = [example_genesis, example_block]
     \<and> get_all_events self' = get_all_events \<lparr>chain = [example_genesis, example_block], difficulty = 0, persist_file = ''chain.json''\<rparr>"
  using persist_reload [of example_world
      "\<lparr>chain = [example_genesis, example_block], difficulty = 0, persist_file = ''chain.json''\<rparr>"
      2 "''1700000002.5''"]
  by (auto simp: example_world_def)

section \<open>Event projection\<close>

text \<open>
  C7. Start from a chain that holds a genesis block of index 0 alone and let \<open>N \<ge> 0\<close>
  calls of \<^verbatim>\<open>add_block\<close> return, one after the other. Then the chain is the genesis
  block followed by \<open>N\<close> blocks, \<^verbatim>\<open>get_all_events\<close> gives one record for each of these
  and none for the genesis block, in chain order, each with the block's index,
  timestamp, payload, hash and previous hash, and the indices are \<open>1, 2, \<dots>, N\<close>;
  the payloads are the ones appended, in the order of the calls.
\<close>

theorem events_projection:
  assumes "chain self = [g]" and "index g = 0" and "add_blocks self w ps = Returns (self', w')"
  shows "\<exists>bs. chain self' = g # bs \<and> length bs = length ps
     \<and> get_all_events self' = map (\<lambda>b. JObj [
            (''block_index'', JInt (index b)),
            (''timestamp'', JFloat (timestamp b)),
            (''data'', JObj (data b)),
            (''hash'', JStr (hash b)),
            (''previous_hash'', JStr (previous_hash b))]) bs
     \<and> map index bs = map int [1..<Suc (length ps)]
     \<and> map data bs = map fst ps"
proof -
  from add_blocks_chain [OF assms(3)] assms(1,2) obtain bs where
    bs: "chain self' = g # bs" "length bs = length ps"
    "map index bs = map (\<lambda>k. 1 + int k) [0..<length ps]" "map data bs = map fst ps"
    by auto
  have "map (\<lambda>k. 1 + int k) [0..<length ps] = map int [1..<Suc (length ps)]"
    by (simp add: map_Suc_upt [symmetric] del: upt_Suc)
  with bs show ?thesis
    by (intro exI [of _ bs]) (simp add: get_all_events_def)
qed

theorem events_projection_witness:
  "\<exists>bs. [example_genesis, example_block] = example_genesis # bs \<and> length bs = 1
     \<and> get_all_events \<lparr>chain = [example_genesis, example_block], difficulty = 0, persist_file = ''chain.json''\<rparr>
         = map (\<lambda>b. JObj [
            (''block_index'', JInt (index b)),
            (''timestamp'', JFloat (timestamp b)),
            (''data'', JObj (data b)),
            (''hash'', JStr (hash b)),
            (''previous_hash'', JStr (previous_hash b))]) bs
     \<and> map index bs = [1]"
proof -
  have run: "add_blocks (example_ledger 0) example_world [(example_payload, ''1700000001.5'')] =
      Returns (\<lparr>chain = [example_genesis, example_block], difficulty = 0, persist_file = ''chain.json''\<rparr>,
        save_chain \<lparr>chain = [example_genesis, example_block], difficulty = 0, persist_file = ''chain.json''\<rparr> example_world)"
    by (simp add: add_block_difficulty_0 example_ledger_def example_block_def)
  have g: "chain (example_ledger 0) = [example_genesis]" "index example_genesis = 0"
    by (simp_all add: example_ledger_def example_genesis_def)
  from events_projection [OF g run] show ?thesis
    by simp
qed

section \<open>Tamper detection\<close>




section \<open>The genesis block is not sealed\<close>

text \<open>
  C3. \<^verbatim>\<open>create_genesis_block\<close> says \<^verbatim>\<open>enforce PoW for genesis to set hash\<close> and
  then stores the block as the constructor made it. So a ledger constructed where no
  file exists has, whatever its difficulty, the genesis block with index 0, the fixed
  payload, the sentinel \<^verbatim>\<open>"0"\<close>, nonce 0 and the digest for nonce 0: no search
  runs. With a difficulty above 64 that digest cannot start with the zeroes asked for.
\<close>

theorem genesis_not_sealed:
  assumes "files w path = None"
  shows "Blockchain_init path d now w =
      Returns (\<lparr>chain = [Block 0 now genesis_data ''0'' 0], difficulty = d, persist_file = path\<rparr>,
        save_chain \<lparr>chain = [Block 0 now genesis_data ''0'' 0], difficulty = d, persist_file = path\<rparr> w)
   \<and> index (Block 0 now genesis_data ''0'' 0) = 0
   \<and> data (Block 0 now genesis_data ''0'' 0) = genesis_data
   \<and> previous_hash (Block 0 now genesis_data ''0'' 0) = ''0''
   \<and> nonce (Block 0 now genesis_data ''0'' 0) = 0
   \<and> hash (Block 0 now genesis_data ''0'' 0) = compute_hash (Block 0 now genesis_data ''0'' 0)
   \<and> (64 < d \<longrightarrow> \<not> startswith (hash (Block 0 now genesis_data ''0'' 0)) (zeroes d))"
  using assms
  by (simp add: Blockchain_init_def create_genesis_block_def Let_def no_seal_above_64)

theorem genesis_not_sealed_witness:
  "Blockchain_init ''chain.json'' 65 ''1700000000.25'' example_world =
      Returns (\<lparr>chain = [example_genesis], difficulty = 65, persist_file = ''chain.json''\<rparr>,
        save_chain \<lparr>chain = [example_genesis], difficulty = 65, persist_file = ''chain.json''\<rparr> example_world)
   \<and> nonce example_genesis = 0
   \<and> \<not> startswith (hash example_genesis) (zeroes 65)"
  using genesis_not_sealed [of example_world "''chain.json''" 65 "''1700000000.25''"]
  by (simp add: example_world_def example_genesis_def)

end
